theory Spec2Isabelle
  imports Complex_Main
begin

section \<open>JavaScript values, errors, promises\<close>

text \<open>
  A JavaScript \<open>number\<close>: a finite value, \<open>NaN\<close>, or one of the two infinities. The
  finite doubles are rationals and are taken as reals, with exact arithmetic; the sign
  of zero is not represented.
\<close>

datatype number = Num real | NaN | PosInfinity | NegInfinity

text \<open>\<open>a < b\<close>: false whenever an operand is \<open>NaN\<close>.\<close>

fun number_less :: "number \<Rightarrow> number \<Rightarrow> bool" where
  "number_less (Num a) (Num b) = (a < b)"
| "number_less (Num a) PosInfinity = True"
| "number_less NegInfinity (Num b) = True"
| "number_less NegInfinity PosInfinity = True"
| "number_less a b = False"

text \<open>\<open>a > b\<close> is \<open>b < a\<close>.\<close>

definition number_greater :: "number \<Rightarrow> number \<Rightarrow> bool" where
  "number_greater a b = number_less b a"



text \<open>An optional field or argument of type \<open>T | null | undefined\<close>.\<close>

datatype 'a nullable = Undefined | Null | Defined 'a

text \<open>\<open>x != null\<close>: false for both \<open>null\<close> and \<open>undefined\<close>.\<close>

fun notNull :: "'a nullable \<Rightarrow> bool" where
  "notNull (Defined x) = True"
| "notNull Undefined = False"
| "notNull Null = False"

text \<open>A value that untyped calling code can place in an options object.\<close>

datatype js_value = JUndefined | JNull | JBoolean bool | JNumber number | JString string

text \<open>
  Error values. The first three are the factory functions of \<open>implementation/error\<close>
  that the modelled sources call; \<open>SyntaxError\<close> is what \<open>JSON.parse\<close> throws;
  \<open>OtherError\<close> stands for every other error, by its code.
\<close>

datatype error =
    invalidRootOperation string
  | noDownloadURL
  | invalidArgument string
  | SyntaxError
  | OtherError string

text \<open>The result of a call: a returned value or a synchronously thrown error.\<close>

datatype 'a outcome = Returned 'a | Thrown error

text \<open>A settled promise.\<close>

datatype 'a promise = Resolved 'a | Rejected error

text \<open>
  \<open>p.then(f)\<close> for a callback \<open>f\<close> that returns a plain value or throws: a rejection
  passes through, a throw of the callback rejects.
\<close>

fun promise_then :: "'a promise \<Rightarrow> ('a \<Rightarrow> 'b outcome) \<Rightarrow> 'b promise" where
  "promise_then (Resolved v) f = (case f v of Returned w \<Rightarrow> Resolved w | Thrown e \<Rightarrow> Rejected e)"
| "promise_then (Rejected e) f = Rejected e"

text \<open>
  \<open>await x\<close> inside an \<open>async\<close> function, where \<open>x\<close> is the outcome of a call that
  returns a promise: a synchronous throw of the call rejects the \<open>async\<close> function as a
  rejection of the promise does.
\<close>

fun await :: "'a promise outcome \<Rightarrow> 'a promise" where
  "await (Returned p) = p"
| "await (Thrown e) = Rejected e"

text \<open>
  The promise an \<open>async\<close> function returns when its body ends by returning a value
  or by throwing.
\<close>

fun settle :: "'a outcome \<Rightarrow> 'a promise" where
  "settle (Returned v) = Resolved v"
| "settle (Thrown e) = Rejected e"

section \<open>String utilities of the database package\<close>

text \<open>
  A JavaScript string is a sequence of UTF-16 code units; \<open>length\<close> and \<open>substring\<close>
  count code units. The element type plays no part in splitting, so a string is a list
  over any type \<open>'a\<close> of code units. The segment size is a \<open>number\<close>, as in the source.
\<close>





section \<open>Storage: the description of a request\<close>

text \<open>A value of the \<open>UrlParams\<close> interface: \<open>string | number\<close>.\<close>

datatype UrlParam = ParamString string | ParamNumber number

text \<open>
  The class \<open>RequestInfo\<close>. The handler, body, error handler and progress callback are
  values of types the class only stores, so they are type parameters here.
\<close>

record ('h, 'b, 'eh, 'pc) RequestInfo =
  url :: string
  "method" :: string
  handler :: 'h
  timeout :: number
  urlParams :: "string \<rightharpoonup> UrlParam"
  headers :: "string \<rightharpoonup> string"
  body :: "'b option"
  errorHandler :: "'eh option"
  progressCallback :: "'pc option"
  successCodes :: "number list"
  additionalRetryCodes :: "number list"

text \<open>
  The constructor: the four parameter properties are assigned from the arguments, the
  other fields from their initialisers.
\<close>

definition new_RequestInfo ::
  "string \<Rightarrow> string \<Rightarrow> 'h \<Rightarrow> number \<Rightarrow> ('h, 'b, 'eh, 'pc) RequestInfo" where
  "new_RequestInfo u m h t =
     \<lparr> url = u, method = m, handler = h, timeout = t,
       urlParams = Map.empty, headers = Map.empty, body = None,
       errorHandler = None, progressCallback = None,
       successCodes = [Num 200], additionalRetryCodes = [] \<rparr>"

section \<open>Storage: references and their operations\<close>

record Location =
  bucket :: string
  path :: string

text \<open>
  A \<open>Reference\<close> holds its location. Its service is used only through
  \<open>makeRequestWithTokens\<close>, which is not among the modelled sources: every operation
  below takes it as the parameter \<open>makeRequest\<close>, a function from the request and the
  state of the service and network to the outcome of the call and the new state.
\<close>

record Reference =
  location :: Location

definition throwIfRoot :: "Reference \<Rightarrow> string \<Rightarrow> error option" where
  "throwIfRoot rf name =
     (if path (location rf) = '''' then Some (invalidRootOperation name) else None)"

type_synonym Metadata = "string \<rightharpoonup> string"

text \<open>
  The request builders of \<open>implementation/requests\<close>, \<open>FbsBlob\<close> and \<open>UploadTask\<close>
  are not among the modelled sources. A built request is kept symbolic: the builder
  applied to the arguments the call site passes (the service and the constant metadata
  mappings left out).
\<close>

datatype 'd FbsBlob = FbsBlob 'd bool

datatype 'd UploadRequest = multipartUpload Location "'d FbsBlob" "Metadata option"

datatype MetadataRequest =
    requestsGetMetadata Location
  | requestsUpdateMetadata Location Metadata

datatype DownloadUrlRequest = requestsGetDownloadUrl Location

datatype DeleteRequest = requestsDeleteObject Location

datatype ListRequest = requestsList Location string "string nullable" js_value

record UploadResult =
  metadata :: Metadata
  ref :: Reference

definition uploadBytes ::
  "('d UploadRequest \<Rightarrow> 's \<Rightarrow> Metadata promise outcome \<times> 's) \<Rightarrow>
   Reference \<Rightarrow> 'd \<Rightarrow> Metadata option \<Rightarrow> 's \<Rightarrow> UploadResult promise outcome \<times> 's" where
  "uploadBytes makeRequest rf dat md s =
     (case throwIfRoot rf ''uploadBytes'' of
        Some e \<Rightarrow> (Thrown e, s)
      | None \<Rightarrow>
          (let requestInfo = multipartUpload (location rf) (FbsBlob dat True) md in
           case makeRequest requestInfo s of
             (Thrown e, s') \<Rightarrow> (Thrown e, s')
           | (Returned p, s') \<Rightarrow>
               (Returned (promise_then p
                  (\<lambda>finalMetadata. Returned \<lparr> metadata = finalMetadata, ref = rf \<rparr>)), s')))"

text \<open>
  \<open>new UploadTask(ref, new FbsBlob(data), metadata)\<close>: the constructor is the parameter
  \<open>newUploadTask\<close>; it may use the network, so it passes the state.
\<close>

definition uploadBytesResumable ::
  "(Reference \<Rightarrow> 'd FbsBlob \<Rightarrow> Metadata option \<Rightarrow> 's \<Rightarrow> 't outcome \<times> 's) \<Rightarrow>
   Reference \<Rightarrow> 'd \<Rightarrow> Metadata option \<Rightarrow> 's \<Rightarrow> 't outcome \<times> 's" where
  "uploadBytesResumable newUploadTask rf dat md s =
     (case throwIfRoot rf ''uploadBytesResumable'' of
        Some e \<Rightarrow> (Thrown e, s)
      | None \<Rightarrow> newUploadTask rf (FbsBlob dat False) md s)"

datatype StringFormat = RAW | BASE64 | BASE64URL | DATA_URL

record 'd StringData =
  data :: 'd
  contentType :: "string option"

text \<open>
  \<open>dataFromString\<close> is a parameter: it returns the decoded data or throws on a string
  that is not of the format. An absent \<open>format\<close> is \<open>StringFormat.RAW\<close>; an absent
  \<open>metadata\<close> spreads to the empty object.
\<close>

definition uploadString ::
  "(StringFormat \<Rightarrow> string \<Rightarrow> 'd StringData outcome) \<Rightarrow>
   ('d UploadRequest \<Rightarrow> 's \<Rightarrow> Metadata promise outcome \<times> 's) \<Rightarrow>
   Reference \<Rightarrow> string \<Rightarrow> StringFormat option \<Rightarrow> Metadata option \<Rightarrow> 's \<Rightarrow>
   UploadResult promise outcome \<times> 's" where
  "uploadString dataFromString makeRequest rf val format md s =
     (case throwIfRoot rf ''uploadString'' of
        Some e \<Rightarrow> (Thrown e, s)
      | None \<Rightarrow>
          (case dataFromString (case format of None \<Rightarrow> RAW | Some f \<Rightarrow> f) val of
             Thrown e \<Rightarrow> (Thrown e, s)
           | Returned sd \<Rightarrow>
               (let metadataClone = (case md of None \<Rightarrow> Map.empty | Some m \<Rightarrow> m);
                    metadataClone' =
                      (if metadataClone ''contentType'' = None \<and> contentType sd \<noteq> None
                       then metadataClone(''contentType'' := contentType sd)
                       else metadataClone)
                in uploadBytes makeRequest rf (data sd) (Some metadataClone') s)))"

definition getMetadata ::
  "(MetadataRequest \<Rightarrow> 's \<Rightarrow> Metadata promise outcome \<times> 's) \<Rightarrow>
   Reference \<Rightarrow> 's \<Rightarrow> Metadata promise outcome \<times> 's" where
  "getMetadata makeRequest rf s =
     (case throwIfRoot rf ''getMetadata'' of
        Some e \<Rightarrow> (Thrown e, s)
      | None \<Rightarrow> makeRequest (requestsGetMetadata (location rf)) s)"

definition updateMetadata ::
  "(MetadataRequest \<Rightarrow> 's \<Rightarrow> Metadata promise outcome \<times> 's) \<Rightarrow>
   Reference \<Rightarrow> Metadata \<Rightarrow> 's \<Rightarrow> Metadata promise outcome \<times> 's" where
  "updateMetadata makeRequest rf md s =
     (case throwIfRoot rf ''updateMetadata'' of
        Some e \<Rightarrow> (Thrown e, s)
      | None \<Rightarrow> makeRequest (requestsUpdateMetadata (location rf) md) s)"

text \<open>
  The request of \<open>getDownloadURL\<close> resolves with \<open>string | null\<close>; the callback tests
  \<open>url === null\<close>, which \<open>undefined\<close> does not satisfy.
\<close>

definition getDownloadURL ::
  "(DownloadUrlRequest \<Rightarrow> 's \<Rightarrow> string nullable promise outcome \<times> 's) \<Rightarrow>
   Reference \<Rightarrow> 's \<Rightarrow> string nullable promise outcome \<times> 's" where
  "getDownloadURL makeRequest rf s =
     (case throwIfRoot rf ''getDownloadURL'' of
        Some e \<Rightarrow> (Thrown e, s)
      | None \<Rightarrow>
          (case makeRequest (requestsGetDownloadUrl (location rf)) s of
             (Thrown e, s') \<Rightarrow> (Thrown e, s')
           | (Returned p, s') \<Rightarrow>
               (Returned (promise_then p
                  (\<lambda>u. if u = Null then Thrown noDownloadURL else Returned u)), s')))"

definition deleteObject ::
  "(DeleteRequest \<Rightarrow> 's \<Rightarrow> unit promise outcome \<times> 's) \<Rightarrow>
   Reference \<Rightarrow> 's \<Rightarrow> unit promise outcome \<times> 's" where
  "deleteObject makeRequest rf s =
     (case throwIfRoot rf ''deleteObject'' of
        Some e \<Rightarrow> (Thrown e, s)
      | None \<Rightarrow> makeRequest (requestsDeleteObject (location rf)) s)"

section \<open>Storage: listing\<close>

record ListOptions =
  maxResults :: js_value
  pageToken :: "string nullable"

record ListResult =
  prefixes :: "Reference list"
  items :: "Reference list"
  nextPageToken :: "string nullable"

text \<open>
  Modelled from the spec: \<open>validateNumber\<close> of \<open>implementation/type\<close> is not among the
  modelled sources. The spec names an invalid option value as programmer misuse, raised
  synchronously; the call site names the bounds \<open>minValue\<close> and \<open>maxValue\<close>. The check
  raises an invalid-argument error for the named argument when the value is below the
  minimum or above the maximum, and returns otherwise.
\<close>

definition validateNumber :: "string \<Rightarrow> number \<Rightarrow> number \<Rightarrow> number \<Rightarrow> error option" where
  "validateNumber argument minValue maxValue val =
     (if number_less val minValue then Some (invalidArgument argument)
      else if number_greater val maxValue then Some (invalidArgument argument)
      else None)"

text \<open>
  \<open>list\<close>. The options are \<open>None\<close> for \<open>null\<close> and \<open>undefined\<close> alike (the source
  tests \<open>options != null\<close> and takes \<open>options || {}\<close>).
\<close>

definition list ::
  "(ListRequest \<Rightarrow> 's \<Rightarrow> ListResult promise outcome \<times> 's) \<Rightarrow>
   Reference \<Rightarrow> ListOptions option \<Rightarrow> 's \<Rightarrow> ListResult promise outcome \<times> 's" where
  "list makeRequest rf options s =
     (case (case options of
              None \<Rightarrow> None
            | Some opts \<Rightarrow>
                (case maxResults opts of
                   JNumber n \<Rightarrow> validateNumber ''options.maxResults'' (Num 1) (Num 1000) n
                 | _ \<Rightarrow> None)) of
        Some e \<Rightarrow> (Thrown e, s)
      | None \<Rightarrow>
          (let op = (case options of
                       None \<Rightarrow> \<lparr> maxResults = JUndefined, pageToken = Undefined \<rparr>
                     | Some opts \<Rightarrow> opts);
               requestInfo = requestsList (location rf) ''/'' (pageToken op) (maxResults op)
           in makeRequest requestInfo s))"

text \<open>
  \<open>listAllHelper\<close> is an \<open>async\<close> function: it returns the settled promise, the
  accumulator object as the call left it, and the state. It calls itself once for each
  page that carries a token and awaits that call as its last step, so it settles as
  the inner call does. A service that never stops sending tokens keeps it running for
  ever: that is the value \<open>None\<close>.
\<close>

partial_function (option) listAllHelper ::
  "(ListRequest \<Rightarrow> 's \<Rightarrow> ListResult promise outcome \<times> 's) \<Rightarrow>
   Reference \<Rightarrow> ListResult \<Rightarrow> string nullable \<Rightarrow> 's \<Rightarrow>
   (unit promise \<times> ListResult \<times> 's) option" where
  "listAllHelper makeRequest rf accumulator tok s =
     (let opt = \<lparr> maxResults = JUndefined, pageToken = tok \<rparr> in
      case list makeRequest rf (Some opt) s of
        (called, s') \<Rightarrow>
          (case await called of
             Rejected e \<Rightarrow> Some (Rejected e, accumulator, s')
           | Resolved nextPage \<Rightarrow>
               (let accumulator' = accumulator
                      \<lparr> prefixes := prefixes accumulator @ prefixes nextPage,
                        items := items accumulator @ items nextPage \<rparr>
                in if notNull (nextPageToken nextPage)
                   then listAllHelper makeRequest rf accumulator' (nextPageToken nextPage) s'
                   else Some (Resolved (), accumulator', s'))))"

definition listAll ::
  "(ListRequest \<Rightarrow> 's \<Rightarrow> ListResult promise outcome \<times> 's) \<Rightarrow>
   Reference \<Rightarrow> 's \<Rightarrow> (ListResult promise outcome \<times> 's) option" where
  "listAll makeRequest rf s =
     (let accumulator = \<lparr> prefixes = [], items = [], nextPageToken = Undefined \<rparr> in
      case listAllHelper makeRequest rf accumulator Undefined s of
        None \<Rightarrow> None
      | Some (p, accumulator', s') \<Rightarrow>
          Some (Returned (promise_then p (\<lambda>u. Returned accumulator')), s'))"

text \<open>
  The nesting of \<open>listAllHelper\<close>: the number of its activations that exist at once.
  An activation that gets a page with a token calls \<open>listAllHelper\<close> again and awaits
  that call before it returns, so its own activation stays pending below the new one.
\<close>

partial_function (option) listAllHelper_depth ::
  "(ListRequest \<Rightarrow> 's \<Rightarrow> ListResult promise outcome \<times> 's) \<Rightarrow>
   Reference \<Rightarrow> string nullable \<Rightarrow> 's \<Rightarrow> nat option" where
  "listAllHelper_depth makeRequest rf tok s =
     (let opt = \<lparr> maxResults = JUndefined, pageToken = tok \<rparr> in
      case list makeRequest rf (Some opt) s of
        (called, s') \<Rightarrow>
          (case await called of
             Rejected e \<Rightarrow> Some 1
           | Resolved nextPage \<Rightarrow>
               if notNull (nextPageToken nextPage)
               then Option.bind (listAllHelper_depth makeRequest rf (nextPageToken nextPage) s')
                      (\<lambda>d. Some (Suc d))
               else Some 1))"

subsection \<open>Test doubles for the service\<close>

text \<open>
  A scripted service: the state is the list of outcomes still to be served, one for each
  request in order; when the script is used up a request is rejected.
\<close>

definition scripted :: "'q \<Rightarrow> 'a promise outcome list \<Rightarrow> 'a promise outcome \<times> 'a promise outcome list" where
  "scripted req script =
     (case script of
        [] \<Rightarrow> (Returned (Rejected (OtherError ''script-exhausted'')), [])
      | r # rest \<Rightarrow> (r, rest))"

text \<open>
  A recording service: it wraps any service and keeps the log of the requests it was
  sent, each with the outcome it gave, in order.
\<close>

definition recording ::
  "('q \<Rightarrow> 's \<Rightarrow> 'r \<times> 's) \<Rightarrow> 'q \<Rightarrow> 's \<times> ('q \<times> 'r) list \<Rightarrow> 'r \<times> ('s \<times> ('q \<times> 'r) list)" where
  "recording makeRequest req st =
     (case st of (s, exchanges) \<Rightarrow>
        (case makeRequest req s of (r, s') \<Rightarrow> (r, (s', exchanges @ [(req, r)]))))"

text \<open>The page token a list request carries, and the page a served outcome holds.\<close>

fun requestToken :: "ListRequest \<Rightarrow> string nullable" where
  "requestToken (requestsList loc delimiter tok mx) = tok"

definition page :: "ListResult \<Rightarrow> ListResult promise outcome" where
  "page p = Returned (Resolved p)"

section \<open>Auth: browser persistence\<close>

text \<open>
  The Web Storage object (\<open>localStorage\<close>, \<open>sessionStorage\<close>) is a map from keys to
  strings: \<open>setItem\<close> stores, \<open>getItem\<close> gives \<open>null\<close> (here \<open>None\<close>) for a key that is
  not there, \<open>removeItem\<close> deletes.
\<close>

type_synonym Storage = "string \<rightharpoonup> string"

definition setItem :: "Storage \<Rightarrow> string \<Rightarrow> string \<Rightarrow> Storage" where
  "setItem st k v = st(k \<mapsto> v)"

definition getItem :: "Storage \<Rightarrow> string \<Rightarrow> string option" where
  "getItem st k = st k"

definition removeItem :: "Storage \<Rightarrow> string \<Rightarrow> Storage" where
  "removeItem st k = st(k := None)"

text \<open>
  The methods of \<open>BrowserPersistence\<close>. \<open>JSON.stringify\<close> and \<open>JSON.parse\<close> are built
  into the language and are parameters here; \<open>JSON.parse\<close> returns a value (\<open>Null\<close> for
  the text \<open>null\<close>) or throws. Each method is \<open>async\<close>: it returns a settled promise and
  the storage as it leaves it.
\<close>

definition BrowserPersistence_set ::
  "('v \<Rightarrow> string) \<Rightarrow> Storage \<Rightarrow> string \<Rightarrow> 'v \<Rightarrow> unit promise \<times> Storage" where
  "BrowserPersistence_set JSON_stringify st key val =
     (Resolved (), setItem st key (JSON_stringify val))"

definition BrowserPersistence_get ::
  "(string \<Rightarrow> 'v nullable outcome) \<Rightarrow> Storage \<Rightarrow> string \<Rightarrow> 'v nullable promise \<times> Storage" where
  "BrowserPersistence_get JSON_parse st key =
     (case getItem st key of
        None \<Rightarrow> (Resolved Null, st)
      | Some json \<Rightarrow>
          (if json \<noteq> '''' then (settle (JSON_parse json), st)
           else (Resolved Null, st)))"

definition BrowserPersistence_remove :: "Storage \<Rightarrow> string \<Rightarrow> unit promise \<times> Storage" where
  "BrowserPersistence_remove st key = (Resolved (), removeItem st key)"

section \<open>Predicates on scripts and logs\<close>

text \<open>
  A paginated listing: at least one page, every page but the last carries a continuation
  token, the last carries none.
\<close>

definition paginated :: "ListResult list \<Rightarrow> bool" where
  "paginated pages =
     (pages \<noteq> [] \<and> list_all (\<lambda>p. notNull (nextPageToken p)) (butlast pages)
        \<and> \<not> notNull (nextPageToken (last pages)))"

text \<open>
  A log of list requests that follows the tokens from a first token on: the first request
  carries that token, and after each exchange the log goes on exactly when the outcome is
  a page with a token, with that token.
\<close>

fun chained :: "string nullable \<Rightarrow> (ListRequest \<times> ListResult promise outcome) list \<Rightarrow> bool" where
  "chained tok [] = False"
| "chained tok ((q, r) # rest) =
     (requestToken q = tok \<and>
      (case await r of
         Resolved pg \<Rightarrow>
           (if notNull (nextPageToken pg) then chained (nextPageToken pg) rest else rest = [])
       | Rejected e \<Rightarrow> rest = []))"

subsection \<open>Sample data\<close>

definition sampleRoot :: Reference where
  "sampleRoot = \<lparr> location = \<lparr> bucket = ''b'', path = '''' \<rparr> \<rparr>"

definition sampleFolder :: Reference where
  "sampleFolder = \<lparr> location = \<lparr> bucket = ''b'', path = ''photos'' \<rparr> \<rparr>"

definition sampleFile :: "string \<Rightarrow> Reference" where
  "sampleFile name = \<lparr> location = \<lparr> bucket = ''b'', path = ''photos/'' @ name \<rparr> \<rparr>"

definition samplePage1 :: ListResult where
  "samplePage1 = \<lparr> prefixes = [sampleFile ''2020''], items = [sampleFile ''a.png''],
                   nextPageToken = Defined ''t1'' \<rparr>"

definition samplePage2 :: ListResult where
  "samplePage2 = \<lparr> prefixes = [], items = [sampleFile ''b.png'', sampleFile ''c.png''],
                   nextPageToken = Null \<rparr>"

text \<open>The exchanges of listing \<open>sampleFolder\<close> against the two sample pages.\<close>

definition sampleLog :: "(ListRequest \<times> ListResult promise outcome) list" where
  "sampleLog =
     [(requestsList (location sampleFolder) ''/'' Undefined JUndefined, page samplePage1),
      (requestsList (location sampleFolder) ''/'' (Defined ''t1'') JUndefined, page samplePage2)]"

text \<open>A page with a token and no entries, and a last page with no entries.\<close>

definition morePage :: ListResult where
  "morePage = \<lparr> prefixes = [], items = [], nextPageToken = Defined ''t'' \<rparr>"

definition lastPage :: ListResult where
  "lastPage = \<lparr> prefixes = [], items = [], nextPageToken = Undefined \<rparr>"

section \<open>Properties of listing\<close>

lemma list_unvalidated:
  "list mk rf (Some \<lparr> maxResults = JUndefined, pageToken = tok \<rparr>) s
     = mk (requestsList (location rf) ''/'' tok JUndefined) s"
  by (simp add: list_def)

lemma listAllHelper_scripted_last:
  assumes "\<not> notNull (nextPageToken final)"
  shows "listAllHelper scripted rf acc tok (page final # rest) =
           Some (Resolved (),
                 acc \<lparr> prefixes := prefixes acc @ prefixes final,
                       items := items acc @ items final \<rparr>, rest)"
  using assms
  by (subst listAllHelper.simps) (simp add: list_unvalidated scripted_def page_def)

lemma listAllHelper_scripted_more:
  assumes "notNull (nextPageToken p)"
  shows "listAllHelper scripted rf acc tok (page p # rest) =
           listAllHelper scripted rf
             (acc \<lparr> prefixes := prefixes acc @ prefixes p, items := items acc @ items p \<rparr>)
             (nextPageToken p) rest"
  using assms
  by (subst listAllHelper.simps) (simp add: list_unvalidated scripted_def page_def)

lemma paginated_Cons:
  "paginated (p # ps) =
     (if ps = [] then \<not> notNull (nextPageToken p)
      else notNull (nextPageToken p) \<and> paginated ps)"
  by (simp add: paginated_def)

lemma listAllHelper_scripted:
  assumes "paginated pages"
  shows "listAllHelper scripted rf acc tok (map page pages @ rest) =
           Some (Resolved (),
                 acc \<lparr> prefixes := prefixes acc @ concat (map prefixes pages),
                       items := items acc @ concat (map items pages) \<rparr>, rest)"
  using assms
proof (induction pages arbitrary: acc tok)
  case Nil
  then show ?case by (simp add: paginated_def)
next
  case (Cons p ps)
  show ?case
  proof (cases "ps = []")
    case True
    with Cons.prems have "\<not> notNull (nextPageToken p)" by (simp add: paginated_Cons)
    with True show ?thesis by (simp add: listAllHelper_scripted_last)
  next
    case False
    with Cons.prems have more: "notNull (nextPageToken p)" and rest: "paginated ps"
      by (simp_all add: paginated_Cons)
    show ?thesis
      using Cons.IH[OF rest] more by (simp add: listAllHelper_scripted_more)
  qed
qed

lemma sample_paginated: "paginated [samplePage1, samplePage2]"
  by (simp add: paginated_def samplePage1_def samplePage2_def)

text \<open>
  C1. Against a scripted service that serves a paginated listing (and whatever the script
  holds after it), \<open>listAll\<close> resolves with a result whose \<open>prefixes\<close> are the prefixes
  of the pages, concatenated in page order, whose \<open>items\<close> are the items of the pages,
  concatenated in page order, and on which \<open>nextPageToken\<close> is not set; the pages of
  the listing are used up and the rest of the script is left.
\<close>

theorem listAll_concatenates_pages:
  assumes "paginated pages"
  shows "listAll scripted rf (map page pages @ rest) =
           Some (Returned (Resolved \<lparr> prefixes = concat (map prefixes pages),
                                      items = concat (map items pages),
                                      nextPageToken = Undefined \<rparr>), rest)"
  using assms by (simp add: listAll_def listAllHelper_scripted)

theorem listAll_concatenates_pages_witness:
  "paginated [samplePage1, samplePage2] \<and>
   listAll scripted sampleFolder (map page [samplePage1, samplePage2] @ []) =
     Some (Returned (Resolved \<lparr> prefixes = [sampleFile ''2020''],
              items = [sampleFile ''a.png'', sampleFile ''b.png'', sampleFile ''c.png''],
              nextPageToken = Undefined \<rparr>), [])"
  using listAll_concatenates_pages [OF sample_paginated, of sampleFolder "[]"] sample_paginated
  by (simp add: samplePage1_def samplePage2_def)

lemma listAllHelper_recorded:
  assumes run: "listAllHelper mk rf acc tok st = Some y"
  shows "\<forall>s ex. mk = recording m \<longrightarrow> st = (s, ex) \<longrightarrow>
           (\<exists>s' new. snd (snd y) = (s', ex @ new) \<and> chained tok new)"
proof (rule listAllHelper.raw_induct
    [where P = "\<lambda>mk rf acc tok st y. \<forall>s ex. mk = recording m \<longrightarrow> st = (s, ex) \<longrightarrow>
           (\<exists>s' new. snd (snd y) = (s', ex @ new) \<and> chained tok new)", OF _ run],
    goal_cases)
  case (1 h mk rf acc tok st y)
  note IH = "1"(1) and body = "1"(2)
  show ?case
  proof (intro allI impI)
    fix s ex
    assume mk: "mk = recording m" and st: "st = (s, ex)"
    let ?q = "requestsList (location rf) ''/'' tok JUndefined"
    obtain r s1 where m: "m ?q s = (r, s1)" by (cases "m ?q s")
    have sent: "list mk rf (Some \<lparr> maxResults = JUndefined, pageToken = tok \<rparr>) st
                  = (r, (s1, ex @ [(?q, r)]))"
      using mk st m by (simp add: list_unvalidated recording_def)
    show "\<exists>s' new. snd (snd y) = (s', ex @ new) \<and> chained tok new"
    proof (cases "await r")
      case (Rejected e)
      with body sent have "snd (snd y) = (s1, ex @ [(?q, r)])" by auto
      moreover have "chained tok [(?q, r)]" using Rejected by simp
      ultimately show ?thesis by blast
    next
      case (Resolved pg)
      show ?thesis
      proof (cases "notNull (nextPageToken pg)")
        case False
        with body sent Resolved have "snd (snd y) = (s1, ex @ [(?q, r)])" by auto
        moreover have "chained tok [(?q, r)]" using Resolved False by simp
        ultimately show ?thesis by blast
      next
        case True
        with body sent Resolved
        have "h mk rf (acc \<lparr> prefixes := prefixes acc @ prefixes pg,
                              items := items acc @ items pg \<rparr>)
                (nextPageToken pg) (s1, ex @ [(?q, r)]) = Some y"
          by (simp add: Let_def)
        from IH[OF this] mk obtain s' new where
          y: "snd (snd y) = (s', (ex @ [(?q, r)]) @ new)" and c: "chained (nextPageToken pg) new"
          by blast
        have "chained tok ((?q, r) # new)" using Resolved True c by simp
        with y show ?thesis by (intro exI[of _ s'] exI[of _ "(?q, r) # new"]) simp
      qed
    qed
  qed
qed

lemma chained_index:
  "chained tok ex \<Longrightarrow> i < length ex \<Longrightarrow> snd (ex ! i) = Returned (Resolved pg) \<Longrightarrow>
     (if notNull (nextPageToken pg)
      then Suc i < length ex \<and> requestToken (fst (ex ! Suc i)) = nextPageToken pg
      else Suc i = length ex)"
proof (induction ex arbitrary: tok i)
  case Nil
  then show ?case by simp
next
  case (Cons x ex)
  obtain q r where x: "x = (q, r)" by (cases x)
  show ?case
  proof (cases i)
    case 0
    with Cons.prems x have r: "r = Returned (Resolved pg)" by simp
    show ?thesis
    proof (cases "notNull (nextPageToken pg)")
      case True
      with Cons.prems(1) x r have c: "chained (nextPageToken pg) ex" by simp
      then obtain q' r' ex' where "ex = (q', r') # ex'" by (cases ex) auto
      with c True 0 show ?thesis by simp
    next
      case False
      with Cons.prems(1) x r 0 show ?thesis by simp
    qed
  next
    case (Suc j)
    from Cons.prems(2) Suc have nonempty: "ex \<noteq> []" by auto
    with Cons.prems(1) x obtain tok' where c: "chained tok' ex"
      by (auto split: promise.splits if_splits)
    from Cons.prems Suc have "j < length ex" "snd (ex ! j) = Returned (Resolved pg)" by simp_all
    from Cons.IH[OF c this] Suc show ?thesis by simp
  qed
qed

lemma chained_first: "chained tok ex \<Longrightarrow> ex \<noteq> [] \<and> requestToken (fst (ex ! 0)) = tok"
  by (cases ex) auto

lemma sample_run:
  "listAll (recording scripted) sampleFolder ([page samplePage1, page samplePage2], []) =
     Some (Returned (Resolved \<lparr> prefixes = [sampleFile ''2020''],
              items = [sampleFile ''a.png'', sampleFile ''b.png'', sampleFile ''c.png''],
              nextPageToken = Undefined \<rparr>),
           ([], sampleLog))"
  unfolding listAll_def sampleLog_def
  apply (subst listAllHelper.simps)
  apply (simp add: list_unvalidated recording_def scripted_def page_def samplePage1_def)
  apply (subst listAllHelper.simps)
  apply (simp add: list_unvalidated recording_def scripted_def page_def samplePage2_def)
  done

lemma listAllHelper_recording_step:
  assumes "mk (requestsList (location rf) ''/'' tok JUndefined) s = (r, s1)"
  shows "listAllHelper (recording mk) rf acc tok (s, ex) =
           (case await r of
              Rejected e \<Rightarrow>
                Some (Rejected e, acc,
                      (s1, ex @ [(requestsList (location rf) ''/'' tok JUndefined, r)]))
            | Resolved pg \<Rightarrow>
                if notNull (nextPageToken pg)
                then listAllHelper (recording mk) rf
                       (acc \<lparr> prefixes := prefixes acc @ prefixes pg,
                              items := items acc @ items pg \<rparr>)
                       (nextPageToken pg)
                       (s1, ex @ [(requestsList (location rf) ''/'' tok JUndefined, r)])
                else Some (Resolved (),
                       acc \<lparr> prefixes := prefixes acc @ prefixes pg,
                             items := items acc @ items pg \<rparr>,
                       (s1, ex @ [(requestsList (location rf) ''/'' tok JUndefined, r)])))"
  using assms
  by (subst listAllHelper.simps)
     (simp add: list_unvalidated recording_def Let_def split: promise.splits)

lemma listAllHelper_recording_scripted_settles:
  "\<exists>p acc' rest ex'. listAllHelper (recording scripted) rf acc tok (script, ex)
                        = Some (p, acc', (rest, ex'))"
proof (induction script arbitrary: acc tok ex)
  case Nil
  have "scripted (requestsList (location rf) ''/'' tok JUndefined) ([] :: ListResult promise outcome list)
          = (Returned (Rejected (OtherError ''script-exhausted'')), [])"
    by (simp add: scripted_def)
  from listAllHelper_recording_step
    [where mk = scripted and rf = rf and tok = tok and s = "[]", OF this]
  show ?case by simp
next
  case (Cons r script)
  have step: "scripted (requestsList (location rf) ''/'' tok JUndefined) (r # script) = (r, script)"
    by (simp add: scripted_def)
  show ?case
  proof (cases "await r")
    case (Rejected e)
    with listAllHelper_recording_step
      [where mk = scripted and rf = rf and tok = tok and s = "r # script", OF step]
    show ?thesis by simp
  next
    case (Resolved pg)
    show ?thesis
    proof (cases "notNull (nextPageToken pg)")
      case True
      with Resolved listAllHelper_recording_step
        [where mk = scripted and rf = rf and tok = tok and s = "r # script" and acc = acc
           and ex = ex, OF step]
      have "listAllHelper (recording scripted) rf acc tok (r # script, ex) =
              listAllHelper (recording scripted) rf
                (acc \<lparr> prefixes := prefixes acc @ prefixes pg, items := items acc @ items pg \<rparr>)
                (nextPageToken pg)
                (script, ex @ [(requestsList (location rf) ''/'' tok JUndefined, r)])"
        by simp
      with Cons.IH show ?thesis by simp
    next
      case False
      with Resolved listAllHelper_recording_step
        [where mk = scripted and rf = rf and tok = tok and s = "r # script", OF step]
      show ?thesis by simp
    qed
  qed
qed

text \<open>
  C2. Take any service and record its exchanges. Every activation of \<open>listAllHelper\<close>
  sends one list request, which carries the token the activation was given. When the
  outcome is a page whose \<open>nextPageToken\<close> is not null, the run goes on as the
  activation with that very token, hence with one further request that carries it; when
  the token is \<open>null\<close> or \<open>undefined\<close>, the run ends there, resolved, with no further
  request in the log. This holds at every step, whether or not the run ever ends.
  Against a scripted service the run of \<open>listAll\<close> ends for every script. In the log of
  a run that has ended the first request carries no token, every exchange whose outcome
  is a page with a token is followed by an exchange whose request carries that token,
  and every exchange whose outcome is a page without one is the last.
\<close>

theorem listAll_follows_tokens:
  "(mk (requestsList (location rf) ''/'' tok JUndefined) s = (r, s1) \<and> r = Returned (Resolved pg)
      \<and> notNull (nextPageToken pg) \<longrightarrow>
      listAllHelper (recording mk) rf acc tok (s, ex) =
        listAllHelper (recording mk) rf
          (acc \<lparr> prefixes := prefixes acc @ prefixes pg, items := items acc @ items pg \<rparr>)
          (nextPageToken pg)
          (s1, ex @ [(requestsList (location rf) ''/'' tok JUndefined, r)]))
   \<and> (mk (requestsList (location rf) ''/'' tok JUndefined) s = (r, s1) \<and> r = Returned (Resolved pg)
      \<and> \<not> notNull (nextPageToken pg) \<longrightarrow>
      listAllHelper (recording mk) rf acc tok (s, ex) =
        Some (Resolved (),
              acc \<lparr> prefixes := prefixes acc @ prefixes pg, items := items acc @ items pg \<rparr>,
              (s1, ex @ [(requestsList (location rf) ''/'' tok JUndefined, r)])))
   \<and> (\<exists>out rest lg. listAll (recording scripted) rf (script, []) = Some (out, (rest, lg)))
   \<and> (listAll (recording mk) rf (s, []) = Some (out, (s', lg)) \<longrightarrow>
        lg \<noteq> [] \<and> requestToken (fst (lg ! 0)) = Undefined \<and>
        (\<forall>i < length lg. \<forall>p. snd (lg ! i) = Returned (Resolved p) \<longrightarrow>
           (if notNull (nextPageToken p)
            then Suc i < length lg \<and> requestToken (fst (lg ! Suc i)) = nextPageToken p
            else Suc i = length lg)))"
proof -
  have more: "mk (requestsList (location rf) ''/'' tok JUndefined) s = (r, s1)
      \<and> r = Returned (Resolved pg) \<and> notNull (nextPageToken pg) \<longrightarrow>
      listAllHelper (recording mk) rf acc tok (s, ex) =
        listAllHelper (recording mk) rf
          (acc \<lparr> prefixes := prefixes acc @ prefixes pg, items := items acc @ items pg \<rparr>)
          (nextPageToken pg)
          (s1, ex @ [(requestsList (location rf) ''/'' tok JUndefined, r)])"
  proof
    assume a: "mk (requestsList (location rf) ''/'' tok JUndefined) s = (r, s1)
      \<and> r = Returned (Resolved pg) \<and> notNull (nextPageToken pg)"
    then have "mk (requestsList (location rf) ''/'' tok JUndefined) s = (r, s1)" by simp
    from listAllHelper_recording_step
      [where mk = mk and rf = rf and tok = tok and s = s and acc = acc and ex = ex, OF this] a
    show "listAllHelper (recording mk) rf acc tok (s, ex) =
        listAllHelper (recording mk) rf
          (acc \<lparr> prefixes := prefixes acc @ prefixes pg, items := items acc @ items pg \<rparr>)
          (nextPageToken pg)
          (s1, ex @ [(requestsList (location rf) ''/'' tok JUndefined, r)])"
      by simp
  qed
  have last: "mk (requestsList (location rf) ''/'' tok JUndefined) s = (r, s1)
      \<and> r = Returned (Resolved pg) \<and> \<not> notNull (nextPageToken pg) \<longrightarrow>
      listAllHelper (recording mk) rf acc tok (s, ex) =
        Some (Resolved (),
              acc \<lparr> prefixes := prefixes acc @ prefixes pg, items := items acc @ items pg \<rparr>,
              (s1, ex @ [(requestsList (location rf) ''/'' tok JUndefined, r)]))"
  proof
    assume a: "mk (requestsList (location rf) ''/'' tok JUndefined) s = (r, s1)
      \<and> r = Returned (Resolved pg) \<and> \<not> notNull (nextPageToken pg)"
    then have "mk (requestsList (location rf) ''/'' tok JUndefined) s = (r, s1)" by simp
    from listAllHelper_recording_step
      [where mk = mk and rf = rf and tok = tok and s = s and acc = acc and ex = ex, OF this] a
    show "listAllHelper (recording mk) rf acc tok (s, ex) =
        Some (Resolved (),
              acc \<lparr> prefixes := prefixes acc @ prefixes pg, items := items acc @ items pg \<rparr>,
              (s1, ex @ [(requestsList (location rf) ''/'' tok JUndefined, r)]))"
      by simp
  qed
  from listAllHelper_recording_scripted_settles
    [of rf "\<lparr> prefixes = [], items = [], nextPageToken = Undefined \<rparr>" Undefined script "[]"]
  have settles:
    "\<exists>out rest lg. listAll (recording scripted) rf (script, []) = Some (out, (rest, lg))"
    by (auto simp: listAll_def)
  have ended: "listAll (recording mk) rf (s, []) = Some (out, (s', lg)) \<longrightarrow>
        lg \<noteq> [] \<and> requestToken (fst (lg ! 0)) = Undefined \<and>
        (\<forall>i < length lg. \<forall>p. snd (lg ! i) = Returned (Resolved p) \<longrightarrow>
           (if notNull (nextPageToken p)
            then Suc i < length lg \<and> requestToken (fst (lg ! Suc i)) = nextPageToken p
            else Suc i = length lg))"
  proof
    assume run: "listAll (recording mk) rf (s, []) = Some (out, (s', lg))"
    then obtain p acc where
      h: "listAllHelper (recording mk) rf
            \<lparr> prefixes = [], items = [], nextPageToken = Undefined \<rparr>
            Undefined (s, []) = Some (p, acc, (s', lg))"
      by (auto simp: listAll_def split: option.splits)
    from listAllHelper_recorded[OF h, of mk] have c: "chained Undefined lg" by simp
    show "lg \<noteq> [] \<and> requestToken (fst (lg ! 0)) = Undefined \<and>
        (\<forall>i < length lg. \<forall>p. snd (lg ! i) = Returned (Resolved p) \<longrightarrow>
           (if notNull (nextPageToken p)
            then Suc i < length lg \<and> requestToken (fst (lg ! Suc i)) = nextPageToken p
            else Suc i = length lg))"
      using chained_first[OF c] chained_index[OF c] by blast
  qed
  show ?thesis
    by (rule conjI [OF more conjI [OF last conjI [OF settles ended]]])
qed

theorem listAll_follows_tokens_witness:
  "listAllHelper (recording scripted) sampleFolder
      \<lparr> prefixes = [], items = [], nextPageToken = Undefined \<rparr> Undefined
      ([page samplePage1, page samplePage2], [])
     = listAllHelper (recording scripted) sampleFolder
         \<lparr> prefixes = prefixes samplePage1, items = items samplePage1,
           nextPageToken = Undefined \<rparr>
         (Defined ''t1'')
         ([page samplePage2],
          [(requestsList (location sampleFolder) ''/'' Undefined JUndefined, page samplePage1)])
   \<and> listAllHelper (recording scripted) sampleFolder
         \<lparr> prefixes = prefixes samplePage1, items = items samplePage1,
           nextPageToken = Undefined \<rparr>
         (Defined ''t1'')
         ([page samplePage2],
          [(requestsList (location sampleFolder) ''/'' Undefined JUndefined, page samplePage1)])
     = Some (Resolved (),
             \<lparr> prefixes = prefixes samplePage1 @ prefixes samplePage2,
               items = items samplePage1 @ items samplePage2,
               nextPageToken = Undefined \<rparr>,
             ([], sampleLog))
   \<and> requestToken (fst (sampleLog ! 0)) = Undefined
   \<and> Suc 0 < length sampleLog
   \<and> requestToken (fst (sampleLog ! Suc 0)) = Defined ''t1''"
proof -
  let ?acc0 = "\<lparr> prefixes = [], items = [], nextPageToken = Undefined \<rparr>"
  let ?acc1 = "\<lparr> prefixes = prefixes samplePage1, items = items samplePage1,
                 nextPageToken = Undefined \<rparr>"
  let ?q0 = "requestsList (location sampleFolder) ''/'' Undefined JUndefined"
  let ?q1 = "requestsList (location sampleFolder) ''/'' (Defined ''t1'') JUndefined"
  note first = listAll_follows_tokens
    [where mk = scripted and rf = sampleFolder and tok = Undefined
       and s = "[page samplePage1, page samplePage2]" and r = "page samplePage1"
       and ?s1.0 = "[page samplePage2]" and pg = samplePage1 and acc = ?acc0 and ex = "[]"
       and script = "[]" and s' = "[]" and lg = sampleLog
       and out = "Returned (Resolved \<lparr> prefixes = [sampleFile ''2020''],
              items = [sampleFile ''a.png'', sampleFile ''b.png'', sampleFile ''c.png''],
              nextPageToken = Undefined \<rparr>)"]
  note second = listAll_follows_tokens
    [where mk = scripted and rf = sampleFolder and tok = "Defined ''t1''"
       and s = "[page samplePage2]" and r = "page samplePage2"
       and ?s1.0 = "[]" and pg = samplePage2 and acc = ?acc1
       and ex = "[(?q0, page samplePage1)]"]
  have tok1: "notNull (nextPageToken samplePage1)" "nextPageToken samplePage1 = Defined ''t1''"
    by (simp_all add: samplePage1_def)
  have tok2: "\<not> notNull (nextPageToken samplePage2)" by (simp add: samplePage2_def)
  have served1: "scripted ?q0 [page samplePage1, page samplePage2]
                   = (page samplePage1, [page samplePage2])
                 \<and> page samplePage1 = Returned (Resolved samplePage1)
                 \<and> notNull (nextPageToken samplePage1)"
    using tok1 by (simp add: scripted_def page_def)
  have served2: "scripted ?q1 [page samplePage2] = (page samplePage2, [])
                 \<and> page samplePage2 = Returned (Resolved samplePage2)
                 \<and> \<not> notNull (nextPageToken samplePage2)"
    using tok2 by (simp add: scripted_def page_def)
  from first have "scripted ?q0 [page samplePage1, page samplePage2]
                     = (page samplePage1, [page samplePage2])
                   \<and> page samplePage1 = Returned (Resolved samplePage1)
                   \<and> notNull (nextPageToken samplePage1) \<longrightarrow>
      listAllHelper (recording scripted) sampleFolder ?acc0 Undefined
        ([page samplePage1, page samplePage2], []) =
      listAllHelper (recording scripted) sampleFolder
        (?acc0 \<lparr> prefixes := prefixes ?acc0 @ prefixes samplePage1,
                 items := items ?acc0 @ items samplePage1 \<rparr>)
        (nextPageToken samplePage1)
        ([page samplePage2], [] @ [(?q0, page samplePage1)])"
    by (rule conjunct1)
  from this [rule_format, OF served1] tok1
  have one: "listAllHelper (recording scripted) sampleFolder ?acc0 Undefined
        ([page samplePage1, page samplePage2], []) =
      listAllHelper (recording scripted) sampleFolder ?acc1 (Defined ''t1'')
        ([page samplePage2], [(?q0, page samplePage1)])"
    by simp
  from second have "scripted ?q1 [page samplePage2] = (page samplePage2, [])
                   \<and> page samplePage2 = Returned (Resolved samplePage2)
                   \<and> \<not> notNull (nextPageToken samplePage2) \<longrightarrow>
      listAllHelper (recording scripted) sampleFolder ?acc1 (Defined ''t1'')
        ([page samplePage2], [(?q0, page samplePage1)]) =
      Some (Resolved (),
            ?acc1 \<lparr> prefixes := prefixes ?acc1 @ prefixes samplePage2,
                    items := items ?acc1 @ items samplePage2 \<rparr>,
            ([], [(?q0, page samplePage1)] @ [(?q1, page samplePage2)]))"
    by (rule conjunct1 [OF conjunct2])
  from this [rule_format, OF served2]
  have two: "listAllHelper (recording scripted) sampleFolder ?acc1 (Defined ''t1'')
        ([page samplePage2], [(?q0, page samplePage1)]) =
      Some (Resolved (),
            \<lparr> prefixes = prefixes samplePage1 @ prefixes samplePage2,
              items = items samplePage1 @ items samplePage2,
              nextPageToken = Undefined \<rparr>,
            ([], sampleLog))"
    by (simp add: sampleLog_def)
  from first have ended: "listAll (recording scripted) sampleFolder
        ([page samplePage1, page samplePage2], []) =
      Some (Returned (Resolved \<lparr> prefixes = [sampleFile ''2020''],
              items = [sampleFile ''a.png'', sampleFile ''b.png'', sampleFile ''c.png''],
              nextPageToken = Undefined \<rparr>), ([], sampleLog)) \<longrightarrow>
      sampleLog \<noteq> [] \<and> requestToken (fst (sampleLog ! 0)) = Undefined \<and>
        (\<forall>i < length sampleLog. \<forall>p. snd (sampleLog ! i) = Returned (Resolved p) \<longrightarrow>
           (if notNull (nextPageToken p)
            then Suc i < length sampleLog
                 \<and> requestToken (fst (sampleLog ! Suc i)) = nextPageToken p
            else Suc i = length sampleLog))"
    by (rule conjunct2 [OF conjunct2 [OF conjunct2]])
  note run = ended [rule_format, OF sample_run]
  from run have start: "requestToken (fst (sampleLog ! 0)) = Undefined"
    by (rule conjunct1 [OF conjunct2])
  from run have every: "\<forall>i < length sampleLog. \<forall>p.
      snd (sampleLog ! i) = Returned (Resolved p) \<longrightarrow>
        (if notNull (nextPageToken p)
         then Suc i < length sampleLog
              \<and> requestToken (fst (sampleLog ! Suc i)) = nextPageToken p
         else Suc i = length sampleLog)"
    by (rule conjunct2 [OF conjunct2])
  have len: "0 < length sampleLog" by (simp add: sampleLog_def)
  have served: "snd (sampleLog ! 0) = Returned (Resolved samplePage1)"
    by (simp add: sampleLog_def page_def)
  from every [rule_format, OF len served]
  have "if notNull (nextPageToken samplePage1)
        then Suc 0 < length sampleLog
             \<and> requestToken (fst (sampleLog ! Suc 0)) = nextPageToken samplePage1
        else Suc 0 = length sampleLog" .
  with tok1 have next_request: "Suc 0 < length sampleLog"
    "requestToken (fst (sampleLog ! Suc 0)) = Defined ''t1''"
    by (simp_all only: if_True)
  from one two start next_request show ?thesis by (intro conjI)
qed

lemma listAllHelper_depth_scripted_last:
  assumes "\<not> notNull (nextPageToken final)"
  shows "listAllHelper_depth scripted rf tok (page final # rest) = Some 1"
  using assms
  by (subst listAllHelper_depth.simps) (simp add: list_unvalidated scripted_def page_def)

lemma listAllHelper_depth_scripted_more:
  assumes "notNull (nextPageToken p)"
  shows "listAllHelper_depth scripted rf tok (page p # rest) =
           Option.bind (listAllHelper_depth scripted rf (nextPageToken p) rest)
             (\<lambda>d. Some (Suc d))"
  using assms
  by (subst listAllHelper_depth.simps) (simp add: list_unvalidated scripted_def page_def)

lemma listAllHelper_depth_scripted:
  assumes "paginated pages"
  shows "listAllHelper_depth scripted rf tok (map page pages @ rest) = Some (length pages)"
  using assms
proof (induction pages arbitrary: tok)
  case Nil
  then show ?case by (simp add: paginated_def)
next
  case (Cons p ps)
  show ?case
  proof (cases "ps = []")
    case True
    with Cons.prems have "\<not> notNull (nextPageToken p)" by (simp add: paginated_Cons)
    with True show ?thesis by (simp add: listAllHelper_depth_scripted_last)
  next
    case False
    with Cons.prems have more: "notNull (nextPageToken p)" and rest: "paginated ps"
      by (simp_all add: paginated_Cons)
    show ?thesis
      using Cons.IH[OF rest] more by (simp add: listAllHelper_depth_scripted_more)
  qed
qed

lemma paginated_replicate: "paginated (replicate n morePage @ [lastPage])"
  by (simp add: paginated_def list_all_iff morePage_def lastPage_def)

text \<open>
  C4, as the code has it. \<open>listAllHelper\<close> is recursive: against a scripted service that
  serves a paginated listing, \<open>listAll\<close> ends and resolves, however many pages the
  listing has, and the nesting of \<open>listAllHelper\<close> reaches the number of pages of the
  listing.
\<close>

theorem listAll_resolves_nesting_per_page:
  assumes "paginated pages"
  shows "(\<exists>result. listAll scripted rf (map page pages @ rest)
                      = Some (Returned (Resolved result), rest))
       \<and> listAllHelper_depth scripted rf Undefined (map page pages @ rest)
           = Some (length pages)"
  using assms by (simp add: listAll_def listAllHelper_scripted listAllHelper_depth_scripted)

theorem listAll_resolves_nesting_per_page_witness:
  "paginated [samplePage1, samplePage2]
   \<and> (\<exists>result. listAll scripted sampleFolder (map page [samplePage1, samplePage2] @ [])
                   = Some (Returned (Resolved result), []))
   \<and> listAllHelper_depth scripted sampleFolder Undefined
        (map page [samplePage1, samplePage2] @ []) = Some (length [samplePage1, samplePage2])"
  using listAll_resolves_nesting_per_page [OF sample_paginated, of sampleFolder "[]"]
    sample_paginated
  by blast

text \<open>
  C4 as stated fails: the nesting of \<open>listAllHelper\<close> has no bound that holds for every
  number of pages. Listing the root against \<open>n\<close> pages with a token and a last page
  nests \<open>n + 1\<close> activations.
\<close>

theorem listAllHelper_depth_unbounded:
  "\<not> (\<exists>bound. \<forall>n d.
         listAllHelper_depth scripted sampleRoot Undefined
           (map page (replicate n morePage @ [lastPage])) = Some d \<longrightarrow> d \<le> bound)"
proof
  assume "\<exists>bound. \<forall>n d.
         listAllHelper_depth scripted sampleRoot Undefined
           (map page (replicate n morePage @ [lastPage])) = Some d \<longrightarrow> d \<le> bound"
  then obtain bound where b: "\<And>n d.
         listAllHelper_depth scripted sampleRoot Undefined
           (map page (replicate n morePage @ [lastPage])) = Some d \<Longrightarrow> d \<le> bound"
    by blast
  have "listAllHelper_depth scripted sampleRoot Undefined
          (map page (replicate bound morePage @ [lastPage]) @ []) = Some (Suc bound)"
    using listAllHelper_depth_scripted [OF paginated_replicate, of sampleRoot Undefined bound "[]"]
    by simp
  then have "listAllHelper_depth scripted sampleRoot Undefined
          (map page (replicate bound morePage @ [lastPage])) = Some (Suc bound)"
    by simp
  from b[OF this] show False by simp
qed

section \<open>Properties of the operations on a reference\<close>

text \<open>
  C3. On a reference whose path is the empty string, each of \<open>uploadBytes\<close>,
  \<open>uploadBytesResumable\<close>, \<open>uploadString\<close>, \<open>getMetadata\<close>, \<open>updateMetadata\<close>,
  \<open>getDownloadURL\<close> and \<open>deleteObject\<close> throws the invalid-root-operation error that
  names it, whatever the request builder, the service and the other arguments are, and
  leaves the state of the service as it was: no request is built and none is sent, and
  later calls find the service as if the call had not been made.
\<close>

theorem root_operations_throw_before_any_request:
  assumes "path (location rf) = ''''"
  shows "uploadBytes mk1 rf dat1 md1 s1 = (Thrown (invalidRootOperation ''uploadBytes''), s1)
       \<and> uploadBytesResumable nt rf dat2 md2 s2
            = (Thrown (invalidRootOperation ''uploadBytesResumable''), s2)
       \<and> uploadString dfs mk3 rf val fmt md3 s3
            = (Thrown (invalidRootOperation ''uploadString''), s3)
       \<and> getMetadata mk4 rf s4 = (Thrown (invalidRootOperation ''getMetadata''), s4)
       \<and> updateMetadata mk5 rf md5 s5 = (Thrown (invalidRootOperation ''updateMetadata''), s5)
       \<and> getDownloadURL mk6 rf s6 = (Thrown (invalidRootOperation ''getDownloadURL''), s6)
       \<and> deleteObject mk7 rf s7 = (Thrown (invalidRootOperation ''deleteObject''), s7)"
  using assms
  by (simp add: uploadBytes_def uploadBytesResumable_def uploadString_def getMetadata_def
      updateMetadata_def getDownloadURL_def deleteObject_def throwIfRoot_def)

lemma sampleRoot_path: "path (location sampleRoot) = ''''"
  by (simp add: sampleRoot_def)

theorem root_operations_throw_before_any_request_witness:
  "path (location sampleRoot) = ''''
   \<and> uploadBytes scripted sampleRoot ''bytes'' None [Returned (Resolved Map.empty)]
       = (Thrown (invalidRootOperation ''uploadBytes''), [Returned (Resolved Map.empty)])
   \<and> uploadBytesResumable (\<lambda>r b m s. (Returned (r, b, m), Suc s)) sampleRoot ''bytes'' None 0
       = (Thrown (invalidRootOperation ''uploadBytesResumable''), 0)
   \<and> uploadString (\<lambda>f v. Returned \<lparr> data = v, contentType = None \<rparr>) scripted
        sampleRoot ''text'' None None [Returned (Resolved Map.empty)]
       = (Thrown (invalidRootOperation ''uploadString''), [Returned (Resolved Map.empty)])
   \<and> getMetadata scripted sampleRoot [Returned (Resolved Map.empty)]
       = (Thrown (invalidRootOperation ''getMetadata''), [Returned (Resolved Map.empty)])
   \<and> updateMetadata scripted sampleRoot Map.empty [Returned (Resolved Map.empty)]
       = (Thrown (invalidRootOperation ''updateMetadata''), [Returned (Resolved Map.empty)])
   \<and> getDownloadURL scripted sampleRoot [Returned (Resolved (Defined ''https://x''))]
       = (Thrown (invalidRootOperation ''getDownloadURL''),
          [Returned (Resolved (Defined ''https://x''))])
   \<and> deleteObject scripted sampleRoot [Returned (Resolved ())]
       = (Thrown (invalidRootOperation ''deleteObject''), [Returned (Resolved ())])"
  using root_operations_throw_before_any_request [OF sampleRoot_path] sampleRoot_path
  by simp




text \<open>
  C8. \<open>getDownloadURL\<close> never returns a promise resolved with \<open>null\<close>. On a reference
  that is not the root, when the request resolves with \<open>null\<close> the returned promise is
  rejected with the no-download-URL error, which differs from every other error; when
  the request resolves with a URL string the returned promise resolves with that string.
\<close>

theorem getDownloadURL_never_null:
  "fst (getDownloadURL mk rf s) \<noteq> Returned (Resolved Null)
   \<and> (path (location rf) \<noteq> '''' \<and>
        mk (requestsGetDownloadUrl (location rf)) s = (Returned (Resolved Null), s') \<longrightarrow>
        getDownloadURL mk rf s = (Returned (Rejected noDownloadURL), s'))
   \<and> (path (location rf) \<noteq> '''' \<and>
        mk (requestsGetDownloadUrl (location rf)) s = (Returned (Resolved (Defined u)), s') \<longrightarrow>
        getDownloadURL mk rf s = (Returned (Resolved (Defined u)), s'))
   \<and> noDownloadURL \<noteq> invalidRootOperation name \<and> noDownloadURL \<noteq> invalidArgument arg
   \<and> noDownloadURL \<noteq> SyntaxError \<and> noDownloadURL \<noteq> OtherError code"
proof -
  have "fst (getDownloadURL mk rf s) \<noteq> Returned (Resolved Null)"
  proof (cases "mk (requestsGetDownloadUrl (location rf)) s")
    case (Pair r s1)
    then show ?thesis
    proof (cases r)
      case (Returned p)
      with Pair show ?thesis
        by (cases p) (auto simp: getDownloadURL_def throwIfRoot_def)
    next
      case (Thrown e)
      with Pair show ?thesis by (auto simp: getDownloadURL_def throwIfRoot_def)
    qed
  qed
  then show ?thesis by (auto simp: getDownloadURL_def throwIfRoot_def)
qed

theorem getDownloadURL_never_null_witness:
  "getDownloadURL scripted sampleFolder [Returned (Resolved Null)]
     = (Returned (Rejected noDownloadURL), [])
   \<and> getDownloadURL scripted sampleFolder [Returned (Resolved (Defined ''https://host/a.png''))]
     = (Returned (Resolved (Defined ''https://host/a.png'')), [])"
  using
    getDownloadURL_never_null [where mk = scripted and rf = sampleFolder
      and s = "[Returned (Resolved Null)]" and s' = "[]"]
    getDownloadURL_never_null [where mk = scripted and rf = sampleFolder
      and s = "[Returned (Resolved (Defined ''https://host/a.png''))]" and s' = "[]"
      and u = "''https://host/a.png''"]
  by (simp add: scripted_def sampleFolder_def)

section \<open>Properties of the description of a request\<close>

text \<open>
  C5. For every url, method, handler and timeout, a newly constructed \<open>RequestInfo\<close>
  has the success codes \<open>[200]\<close> (as a set, the singleton of 200), no additional retry
  codes, empty \<open>headers\<close> and \<open>urlParams\<close>, a \<open>null\<close> body, no error handler and no
  progress callback.
\<close>

theorem new_RequestInfo_defaults:
  "set (successCodes (new_RequestInfo u m h t)) = {Num 200}
   \<and> successCodes (new_RequestInfo u m h t) = [Num 200]
   \<and> additionalRetryCodes (new_RequestInfo u m h t) = []
   \<and> headers (new_RequestInfo u m h t) = Map.empty
   \<and> urlParams (new_RequestInfo u m h t) = Map.empty
   \<and> body (new_RequestInfo u m h t) = None
   \<and> errorHandler (new_RequestInfo u m h t) = None
   \<and> progressCallback (new_RequestInfo u m h t) = None"
  by (simp add: new_RequestInfo_def)

section \<open>Properties of browser persistence\<close>

text \<open>
  C9. For every key and every value whose JSON text is not the empty string (the JSON
  text of a value is never empty), \<open>get\<close> after \<open>set\<close> settles as
  \<open>JSON.parse(JSON.stringify(v))\<close> does, hence resolves with the value itself when parsing
  its text gives it back. \<open>get\<close> resolves with \<open>null\<close> on the empty storage, on any
  storage that does not hold the key, and after \<open>remove\<close> of the key.
\<close>

theorem BrowserPersistence_get_after_set:
  "(JSON_stringify v \<noteq> '''' \<longrightarrow>
      fst (BrowserPersistence_get JSON_parse
             (snd (BrowserPersistence_set JSON_stringify st k v)) k)
        = settle (JSON_parse (JSON_stringify v)))
   \<and> (JSON_stringify v \<noteq> '''' \<and> JSON_parse (JSON_stringify v) = Returned (Defined v) \<longrightarrow>
      fst (BrowserPersistence_get JSON_parse
             (snd (BrowserPersistence_set JSON_stringify st k v)) k) = Resolved (Defined v))
   \<and> fst (BrowserPersistence_get JSON_parse Map.empty k) = Resolved Null
   \<and> (st k = None \<longrightarrow> fst (BrowserPersistence_get JSON_parse st k) = Resolved Null)
   \<and> fst (BrowserPersistence_get JSON_parse (snd (BrowserPersistence_remove st k)) k)
        = Resolved Null"
  by (simp add: BrowserPersistence_get_def BrowserPersistence_set_def
      BrowserPersistence_remove_def setItem_def getItem_def removeItem_def)

theorem BrowserPersistence_get_after_set_witness:
  "fst (BrowserPersistence_get (\<lambda>j. Returned (Defined (butlast (tl j))))
          (snd (BrowserPersistence_set (\<lambda>v. ''<'' @ v @ ''>'') Map.empty ''user'' ''alice''))
          ''user'') = Resolved (Defined ''alice'')
   \<and> fst (BrowserPersistence_get (\<lambda>j. Returned (Defined (butlast (tl j))))
          (Map.empty(''other'' \<mapsto> ''<bob>'')) ''user'') = Resolved Null"
  using BrowserPersistence_get_after_set
    [where JSON_stringify = "\<lambda>v. ''<'' @ v @ ''>''"
       and JSON_parse = "\<lambda>j. Returned (Defined (butlast (tl j)))"
       and v = "''alice''" and st = Map.empty and k = "''user''"]
    BrowserPersistence_get_after_set
    [where JSON_stringify = "\<lambda>v. ''<'' @ v @ ''>''"
       and JSON_parse = "\<lambda>j. Returned (Defined (butlast (tl j)))"
       and v = "''alice''" and st = "Map.empty(''other'' \<mapsto> ''<bob>'')" and k = "''user''"]
  by simp

section \<open>Properties of the string utilities\<close>












end
